theory Spec2Isabelle
  imports Complex_Main "HOL-Library.Word"
begin

section \<open>Surface profile synthesis of tribology.py: profball and profrevolve\<close>

text \<open>
  Scope of the model. The scalars \<open>r_ball\<close> and \<open>y_diam\<close> are floats, and so are the entries of
  \<open>prof_2d\<close> and \<open>y_axis\<close> of profrevolve (its profile input is what profball returns); they are
  modelled as real numbers. Rounding, overflow and underflow of IEEE doubles are outside the
  model. The \<open>x_axis\<close> of profball is a numpy array of float64 or of int64 coordinates:
  \<open>np.power\<close> squares an array in its own dtype, so the squares of int64 coordinates wrap
  around modulo \<open>2\<^sup>6\<^sup>4\<close> before they meet a float, and the model keeps that. The one non-real
  value the program can produce from such input, numpy's nan for the square root of a
  negative number, is the value \<open>None\<close> of \<open>real option\<close>. Python exceptions are values of the
  type \<open>error\<close>.
\<close>

subsection \<open>Python and numpy primitives\<close>

datatype error = ValueError | IndexError

text \<open>\<open>np.sqrt\<close>: nan (here \<open>None\<close>) on a negative argument, no exception.\<close>

definition np_sqrt :: "real \<Rightarrow> real option" where
  "np_sqrt v = (if v < 0 then None else Some (sqrt v))"

text \<open>\<open>math.sqrt\<close>: raises ValueError (math domain error) on a negative argument.\<close>

definition math_sqrt :: "real \<Rightarrow> error + real" where
  "math_sqrt v = (if v < 0 then Inl ValueError else Inr (sqrt v))"

text \<open>Python 3 \<open>round\<close> with one argument: to the nearest integer, ties to the even one.\<close>

definition py_round :: "real \<Rightarrow> int" where
  "py_round v =
     (let f = \<lfloor>v\<rfloor>; r = v - of_int f
      in if r < 1 / 2 then f
         else if 1 / 2 < r then f + 1
         else if even f then f else f + 1)"

text \<open>
  A two-dimensional numpy array: its shape and its rows. The shape is kept beside the
  rows because an array of shape \<open>(0, n)\<close> has no row to read \<open>n\<close> from.
\<close>

record ndarray =
  shape :: "nat \<times> nat"
  rows :: "real list list"

definition np_zeros :: "nat \<times> nat \<Rightarrow> ndarray" where
  "np_zeros s = \<lparr>shape = s, rows = replicate (fst s) (replicate (snd s) 0)\<rparr>"

text \<open>\<open>a[i, j] = v\<close> for indices in range (the loops of profrevolve only write in range).\<close>

definition setitem :: "ndarray \<Rightarrow> nat \<Rightarrow> nat \<Rightarrow> real \<Rightarrow> ndarray" where
  "setitem a i j v = a\<lparr>rows := (rows a)[i := (rows a ! i)[j := v]]\<rparr>"

text \<open>
  An integer index on an axis of size \<open>n\<close>: a negative index counts from the end, an
  index outside \<open>-n .. n - 1\<close> raises IndexError.
\<close>

definition np_index :: "nat \<Rightarrow> int \<Rightarrow> error + nat" where
  "np_index n i =
     (if 0 \<le> i \<and> i < int n then Inr (nat i)
      else if - int n \<le> i \<and> i < 0 then Inr (nat (i + int n))
      else Inl IndexError)"

text \<open>\<open>a[i, j]\<close> read with integer indices.\<close>

definition getitem :: "ndarray \<Rightarrow> int \<times> int \<Rightarrow> error + real" where
  "getitem a ij =
     (case np_index (fst (shape a)) (fst ij) of
        Inl e \<Rightarrow> Inl e
      | Inr i \<Rightarrow>
          (case np_index (snd (shape a)) (snd ij) of
             Inl e \<Rightarrow> Inl e
           | Inr j \<Rightarrow> Inr (rows a ! i ! j)))"

text \<open>\<open>a.min()\<close>: ValueError on an array without elements.\<close>

definition np_min :: "ndarray \<Rightarrow> error + real" where
  "np_min a =
     (case concat (rows a) of
        [] \<Rightarrow> Inl ValueError
      | v # vs \<Rightarrow> Inr (fold min vs v))"

text \<open>\<open>a - m\<close> with a scalar \<open>m\<close>, and \<open>-a\<close>.\<close>

definition np_sub :: "ndarray \<Rightarrow> real \<Rightarrow> ndarray" where
  "np_sub a m = a\<lparr>rows := map (map (\<lambda>v. v - m)) (rows a)\<rparr>"

definition np_neg :: "ndarray \<Rightarrow> ndarray" where
  "np_neg a = a\<lparr>rows := map (map uminus) (rows a)\<rparr>"

text \<open>\<open>a[:, j]\<close> with a non-negative \<open>j\<close>: IndexError when \<open>j\<close> is not below the second size.\<close>

definition column :: "ndarray \<Rightarrow> nat \<Rightarrow> error + real list" where
  "column a j =
     (if j < snd (shape a) then Inr (map (\<lambda>r. r ! j) (rows a)) else Inl IndexError)"

subsection \<open>profball\<close>

text \<open>
  A one-dimensional numpy array of coordinates, by dtype. An int64 entry is a 64-bit word
  read as a signed number.
\<close>

datatype axis = Float64 "real list" | Int64 "64 word list"

text \<open>The numbers an array holds; this is also its conversion to float64.\<close>

definition coords :: "axis \<Rightarrow> real list" where
  "coords a =
     (case a of
        Float64 xs \<Rightarrow> xs
      | Int64 ws \<Rightarrow> map (\<lambda>w. real_of_int (sint w)) ws)"

text \<open>
  \<open>np.power(x_axis, 2)\<close>: elementwise, in the dtype of the array. On int64 the product is
  taken modulo \<open>2\<^sup>6\<^sup>4\<close>, which is the multiplication of \<open>64 word\<close>.
\<close>

definition np_power2 :: "axis \<Rightarrow> axis" where
  "np_power2 a =
     (case a of
        Float64 xs \<Rightarrow> Float64 (map (\<lambda>x. x ^ 2) xs)
      | Int64 ws \<Rightarrow> Int64 (map (\<lambda>w. w ^ 2) ws))"

text \<open>
  \<open>prof = np.array(abs(r_ball) - np.sqrt(r_ball ** 2 - np.power(x_axis, 2)))\<close>,
  \<open>return prof * np.sign(r_ball)\<close>, each step elementwise. The float \<open>r_ball ** 2\<close> minus the
  array of squares is a float64 array; nan propagates through the subtraction and the
  product.
\<close>

definition profball :: "axis \<Rightarrow> real \<Rightarrow> real option list" where
  "profball x_axis r_ball =
     (let squares = coords (np_power2 x_axis);
          roots = map (\<lambda>q. np_sqrt (r_ball ^ 2 - q)) squares;
          prof = map (map_option (\<lambda>s. \<bar>r_ball\<bar> - s)) roots
      in map (map_option (\<lambda>h. h * sgn r_ball)) prof)"

subsection \<open>profrevolve\<close>

text \<open>The expression assigned to \<open>bracket\<close> in the inner loop.\<close>

definition bracket :: "real \<Rightarrow> real \<Rightarrow> real \<Rightarrow> real" where
  "bracket y_diam p y = (y_diam / 2 - sgn y_diam * p) ^ 2 - y ^ 2"

text \<open>The inner loop \<open>for i_y in range(len_y)\<close>, over the indices still to visit.\<close>

fun profrevolve_inner ::
  "real list \<Rightarrow> real list \<Rightarrow> real \<Rightarrow> nat \<Rightarrow> nat list \<Rightarrow> ndarray \<Rightarrow> error + ndarray" where
  "profrevolve_inner prof_2d y_axis y_diam i_x [] prof_3d = Inr prof_3d"
| "profrevolve_inner prof_2d y_axis y_diam i_x (i_y # todo) prof_3d =
     (let b = bracket y_diam (prof_2d ! i_x) (y_axis ! i_y)
      in if b \<le> 0
         then profrevolve_inner prof_2d y_axis y_diam i_x todo
                (setitem prof_3d i_x i_y (\<bar>y_diam\<bar> / 2))
         else (case math_sqrt b of
                 Inl e \<Rightarrow> Inl e
               | Inr s \<Rightarrow>
                   profrevolve_inner prof_2d y_axis y_diam i_x todo
                     (setitem prof_3d i_x i_y (\<bar>y_diam\<bar> / 2 - sgn y_diam * s))))"

text \<open>The outer loop \<open>for i_x in range(len_x)\<close>.\<close>

fun profrevolve_outer ::
  "real list \<Rightarrow> real list \<Rightarrow> real \<Rightarrow> nat list \<Rightarrow> ndarray \<Rightarrow> error + ndarray" where
  "profrevolve_outer prof_2d y_axis y_diam [] prof_3d = Inr prof_3d"
| "profrevolve_outer prof_2d y_axis y_diam (i_x # todo) prof_3d =
     (case profrevolve_inner prof_2d y_axis y_diam i_x [0..<length y_axis] prof_3d of
        Inl e \<Rightarrow> Inl e
      | Inr prof_3d' \<Rightarrow> profrevolve_outer prof_2d y_axis y_diam todo prof_3d')"

text \<open>Lines 46 to 57: the raw grid, before it is referenced to \<open>min_prof\<close>.\<close>

definition profrevolve_raw :: "real list \<Rightarrow> real list \<Rightarrow> real \<Rightarrow> error + ndarray" where
  "profrevolve_raw prof_2d y_axis y_diam =
     (let len_x = length prof_2d; len_y = length y_axis
      in profrevolve_outer prof_2d y_axis y_diam [0..<len_x] (np_zeros (len_x, len_y)))"

text \<open>Lines 58 to 61: the reference value \<open>min_prof\<close>.\<close>

definition profrevolve_min_prof :: "ndarray \<Rightarrow> nat \<Rightarrow> real \<Rightarrow> error + real" where
  "profrevolve_min_prof prof_3d len_x y_diam =
     (if y_diam > 0 then np_min prof_3d
      else getitem prof_3d
             (py_round (real len_x / 2) - 1, py_round (real len_x / 2) - 1))"

text \<open>The whole function; \<open>floor(len_y / 2)\<close> is \<open>nat \<lfloor>real len_y / 2\<rfloor>\<close>.\<close>

definition profrevolve ::
  "real list \<Rightarrow> real list \<Rightarrow> real \<Rightarrow> error + (ndarray \<times> real list)" where
  "profrevolve prof_2d y_axis y_diam =
     (case profrevolve_raw prof_2d y_axis y_diam of
        Inl e \<Rightarrow> Inl e
      | Inr raw \<Rightarrow>
          (case profrevolve_min_prof raw (length prof_2d) y_diam of
             Inl e \<Rightarrow> Inl e
           | Inr min_prof \<Rightarrow>
               (let prof_3d = np_neg (np_sub raw min_prof)
                in case column prof_3d (nat \<lfloor>real (length y_axis) / 2\<rfloor>) of
                     Inl e \<Rightarrow> Inl e
                   | Inr y_profile \<Rightarrow> Inr (np_neg prof_3d, y_profile))))"

subsection \<open>Closed forms used in the proofs\<close>

text \<open>The value a cell receives, as a total function of the three numbers it reads.\<close>

definition cell_value :: "real \<Rightarrow> real \<Rightarrow> real \<Rightarrow> real" where
  "cell_value y_diam p y =
     (if bracket y_diam p y \<le> 0 then \<bar>y_diam\<bar> / 2
      else \<bar>y_diam\<bar> / 2 - sgn y_diam * sqrt (bracket y_diam p y))"

text \<open>
  The grid with every cell given by \<open>cell_value\<close>; the loops of profrevolve are proved
  below to return exactly this array (\<open>profrevolve_raw_grid\<close>).
\<close>

definition raw_grid :: "real list \<Rightarrow> real list \<Rightarrow> real \<Rightarrow> ndarray" where
  "raw_grid prof_2d y_axis y_diam =
     \<lparr>shape = (length prof_2d, length y_axis),
      rows = map (\<lambda>p. map (cell_value y_diam p) y_axis) prof_2d\<rparr>"


section \<open>Properties of profball\<close>

subsection \<open>Squares of coordinates\<close>

lemma length_coords_np_power2: "length (coords (np_power2 a)) = length (coords a)"
  by (cases a) (simp_all add: coords_def np_power2_def)

lemma squares_Float64:
  "i < length xs \<Longrightarrow> coords (np_power2 (Float64 xs)) ! i = (xs ! i) ^ 2"
  by (simp add: coords_def np_power2_def)

lemma squares_Int64:
  "i < length ws \<Longrightarrow> coords (np_power2 (Int64 ws)) ! i = real_of_int (sint ((ws ! i) ^ 2))"
  by (simp add: coords_def np_power2_def del: of_int_sint)

lemma coords_Int64_nth:
  "i < length ws \<Longrightarrow> coords (Int64 ws) ! i = real_of_int (sint (ws ! i))"
  by (simp add: coords_def del: of_int_sint)

text \<open>A square below \<open>2\<^sup>6\<^sup>3\<close> does not wrap; every wrapped square lies in the int64 range.\<close>

lemma sint_square_exact:
  fixes w :: "64 word"
  assumes "(sint w) ^ 2 < 2 ^ 63"
  shows "sint (w ^ 2) = (sint w) ^ 2"
proof -
  have "sint (w ^ 2) = signed_take_bit 63 (sint w * sint w)"
    by (simp add: power2_eq_square sint_word_ariths)
  also have "\<dots> = sint w * sint w"
  proof (rule signed_take_bit_int_eq_self)
    have "0 \<le> sint w * sint w" by simp
    moreover have "- (2 ^ 63) \<le> (0 :: int)" by simp
    ultimately show "- (2 ^ 63) \<le> sint w * sint w" by (rule order_trans [rotated])
    from assms show "sint w * sint w < 2 ^ 63" by (simp add: power2_eq_square)
  qed
  finally show ?thesis by (simp add: power2_eq_square)
qed

lemma sint_square_range:
  fixes w :: "64 word"
  shows "- (2 ^ 63) \<le> sint (w ^ 2)" and "sint (w ^ 2) < 2 ^ 63"
  using sint_ge [of "w ^ 2"] sint_lt [of "w ^ 2"] by simp_all

lemma wrapped_square_bound:
  fixes w :: "64 word"
  assumes "(real_of_int (sint w)) ^ 2 \<le> r ^ 2"
  shows "\<bar>real_of_int (sint (w ^ 2))\<bar> \<le> r ^ 2"
proof (cases "(sint w) ^ 2 < 2 ^ 63")
  case True
  then have "real_of_int (sint (w ^ 2)) = (real_of_int (sint w)) ^ 2"
    by (simp only: sint_square_exact of_int_power)
  with assms show ?thesis by simp
next
  case False
  then have "(2 :: int) ^ 63 \<le> (sint w) ^ 2" by simp
  then have "real_of_int (2 ^ 63) \<le> real_of_int ((sint w) ^ 2)" by (simp only: of_int_le_iff)
  then have big: "(2 :: real) ^ 63 \<le> r ^ 2" using assms by simp
  from sint_square_range [of w]
  have "\<bar>sint (w ^ 2)\<bar> \<le> 2 ^ 63" by simp
  then have "real_of_int \<bar>sint (w ^ 2)\<bar> \<le> real_of_int (2 ^ 63)" by (simp only: of_int_le_iff)
  then have "\<bar>real_of_int (sint (w ^ 2))\<bar> \<le> 2 ^ 63" by simp
  with big show ?thesis by linarith
qed

lemma square_bound:
  assumes "i < length (coords a)" and "(coords a ! i) ^ 2 \<le> r ^ 2"
  shows "\<bar>coords (np_power2 a) ! i\<bar> \<le> r ^ 2"
proof (cases a)
  case (Float64 xs)
  with assms have i: "i < length xs" and d: "(xs ! i) ^ 2 \<le> r ^ 2"
    by (simp_all add: coords_def)
  from i have "coords (np_power2 (Float64 xs)) ! i = (xs ! i) ^ 2"
    by (rule squares_Float64)
  with d Float64 show ?thesis by simp
next
  case (Int64 ws)
  with assms have i: "i < length ws" by (simp add: coords_def)
  with assms(2) Int64 have "(real_of_int (sint (ws ! i))) ^ 2 \<le> r ^ 2"
    by (simp only: coords_Int64_nth)
  then have "\<bar>real_of_int (sint ((ws ! i) ^ 2))\<bar> \<le> r ^ 2"
    by (rule wrapped_square_bound)
  with i Int64 show ?thesis by (simp only: squares_Int64)
qed

lemma square_mirror:
  assumes "i < length (coords a)" and "j < length (coords a)"
    and "coords a ! i = - coords a ! j"
  shows "coords (np_power2 a) ! i = coords (np_power2 a) ! j"
proof (cases a)
  case (Float64 xs)
  with assms have "i < length xs" "j < length xs" "xs ! i = - xs ! j"
    by (simp_all add: coords_def)
  then have "(xs ! i) ^ 2 = (xs ! j) ^ 2" by (simp only: power2_minus)
  with \<open>i < length xs\<close> \<open>j < length xs\<close> Float64 show ?thesis
    by (simp only: squares_Float64)
next
  case (Int64 ws)
  with assms have i: "i < length ws" and j: "j < length ws" by (simp_all add: coords_def)
  from assms(3) Int64 i j have "real_of_int (sint (ws ! i)) = - real_of_int (sint (ws ! j))"
    by (simp only: coords_Int64_nth)
  then have "real_of_int (sint (ws ! i)) = real_of_int (- sint (ws ! j))"
    by (simp only: of_int_minus)
  then have "sint (ws ! i) = - sint (ws ! j)" by (simp only: of_int_eq_iff)
  then have "word_of_int (sint (ws ! i)) = (word_of_int (- sint (ws ! j)) :: 64 word)"
    by (rule arg_cong)
  then have "ws ! i = - (ws ! j)" by simp
  then have "(ws ! i) ^ 2 = (ws ! j) ^ 2" by (simp only: power2_minus)
  with i j Int64 show ?thesis by (simp only: squares_Int64)
qed

subsection \<open>The profile, entry by entry\<close>

lemma length_profball: "length (profball x_axis r_ball) = length (coords x_axis)"
  by (simp add: profball_def length_coords_np_power2)

lemma profball_nth:
  "i < length (coords x_axis) \<Longrightarrow>
   profball x_axis r_ball ! i =
     map_option (\<lambda>s. (\<bar>r_ball\<bar> - s) * sgn r_ball)
       (np_sqrt (r_ball ^ 2 - coords (np_power2 x_axis) ! i))"
  by (simp add: profball_def length_coords_np_power2 option.map_comp comp_def)

lemma profball_nth_defined:
  assumes "i < length (coords x_axis)" and "coords (np_power2 x_axis) ! i \<le> r_ball ^ 2"
  shows "profball x_axis r_ball ! i =
           Some (sgn r_ball * (\<bar>r_ball\<bar> - sqrt (r_ball ^ 2 - coords (np_power2 x_axis) ! i)))"
  using assms by (simp add: profball_nth np_sqrt_def mult.commute)

text \<open>
  Where the squares are exact, each value is
  \<open>sign(r_ball) \<sqdot> (|r_ball| - sqrt(r_ball\<^sup>2 - x\<^sup>2))\<close>, and \<open>0\<close> at \<open>x = 0\<close>: for float64 coordinates,
  and for int64 coordinates whose squares stay below \<open>2\<^sup>6\<^sup>3\<close>.
\<close>

lemma profball_formula_Float64:
  assumes "\<forall>x \<in> set xs. x ^ 2 \<le> r_ball ^ 2"
  shows "length (profball (Float64 xs) r_ball) = length xs \<and>
         (\<forall>i < length xs.
            profball (Float64 xs) r_ball ! i =
              Some (sgn r_ball * (\<bar>r_ball\<bar> - sqrt (r_ball ^ 2 - (xs ! i) ^ 2)))) \<and>
         (\<forall>i < length xs. xs ! i = 0 \<longrightarrow> profball (Float64 xs) r_ball ! i = Some 0)"
proof (intro conjI allI impI)
  show "length (profball (Float64 xs) r_ball) = length xs"
    by (simp add: length_profball coords_def)
next
  fix i assume i: "i < length xs"
  with assms have "(xs ! i) ^ 2 \<le> r_ball ^ 2" by simp
  with i show "profball (Float64 xs) r_ball ! i =
      Some (sgn r_ball * (\<bar>r_ball\<bar> - sqrt (r_ball ^ 2 - (xs ! i) ^ 2)))"
    using profball_nth_defined [of i "Float64 xs" r_ball]
    by (simp add: squares_Float64) (simp add: coords_def)
next
  fix i assume i: "i < length xs" and z: "xs ! i = 0"
  then show "profball (Float64 xs) r_ball ! i = Some 0"
    using profball_nth_defined [of i "Float64 xs" r_ball]
    by (simp add: squares_Float64) (simp add: coords_def)
qed

lemma profball_formula_Int64:
  assumes "\<forall>w \<in> set ws. (sint w) ^ 2 < 2 ^ 63 \<and> (real_of_int (sint w)) ^ 2 \<le> r_ball ^ 2"
    and "i < length ws"
  shows "profball (Int64 ws) r_ball ! i =
           Some (sgn r_ball *
                 (\<bar>r_ball\<bar> - sqrt (r_ball ^ 2 - (real_of_int (sint (ws ! i))) ^ 2)))"
proof -
  from assms have small: "(sint (ws ! i)) ^ 2 < 2 ^ 63"
    and dom: "(real_of_int (sint (ws ! i))) ^ 2 \<le> r_ball ^ 2" by simp_all
  from small have "real_of_int (sint ((ws ! i) ^ 2)) = (real_of_int (sint (ws ! i))) ^ 2"
    by (simp only: sint_square_exact of_int_power)
  with assms(2) have q: "coords (np_power2 (Int64 ws)) ! i = (real_of_int (sint (ws ! i))) ^ 2"
    by (simp only: squares_Int64)
  from assms(2) have "i < length (coords (Int64 ws))" by (simp add: coords_def)
  then show ?thesis
    using dom by (simp only: profball_nth_defined q)
qed

text \<open>
  Claim C7 is right and the code breaks it on integer coordinates. The int64 array
  \<open>[3037000500]\<close> with \<open>r_ball = 3037000500.0\<close> satisfies \<open>x\<^sup>2 \<le> r_ball\<^sup>2\<close>, and the claimed value
  is \<open>|r_ball| - sqrt 0 = 3037000500\<close>. \<open>np.power\<close> squares the coordinate in int64, where
  \<open>3037000500\<^sup>2\<close> wraps to \<open>-9223372036709301616\<close>; the root is then taken of \<open>2\<^sup>6\<^sup>4\<close> and the code
  returns \<open>3037000500 - 4294967296 = -1257966796\<close>.
\<close>

theorem profball_int64_square_wraps:
  "coords (Int64 [3037000500]) = [3037000500] \<and>
   (3037000500 :: real) ^ 2 \<le> 3037000500 ^ 2 \<and>
   sgn (3037000500 :: real) * (\<bar>3037000500\<bar> - sqrt (3037000500 ^ 2 - 3037000500 ^ 2)) =
     3037000500 \<and>
   coords (np_power2 (Int64 [3037000500])) = [- 9223372036709301616] \<and>
   profball (Int64 [3037000500]) 3037000500 = [Some (- 1257966796)]"
proof (intro conjI)
  have sq: "sint ((3037000500 :: 64 word) ^ 2) = - 9223372036709301616"
    by (simp add: power2_eq_square)
  have "sqrt ((4294967296 :: real) ^ 2) = 4294967296" by simp
  then have rt: "sqrt 18446744073709551616 = 4294967296" by simp
  show "coords (Int64 [3037000500]) = [3037000500]"
    by (simp add: coords_def)
  show "(3037000500 :: real) ^ 2 \<le> 3037000500 ^ 2" by simp
  show "sgn (3037000500 :: real) * (\<bar>3037000500\<bar> - sqrt (3037000500 ^ 2 - 3037000500 ^ 2)) =
      3037000500" by simp
  show "coords (np_power2 (Int64 [3037000500])) = [- 9223372036709301616]"
    by (simp add: coords_def np_power2_def sq del: of_int_sint)
  show "profball (Int64 [3037000500]) 3037000500 = [Some (- 1257966796)]"
    by (simp add: profball_def coords_def np_power2_def np_sqrt_def sq rt del: of_int_sint)
qed

text \<open>
  Claim C8. For an \<open>x_axis\<close> (float64 or int64) that mirrors around \<open>0\<close> and lies within the
  ball, the values at \<open>i\<close> and at \<open>len - 1 - i\<close> are the same number; both are numbers, so
  Python's \<open>==\<close> holds between them.
\<close>

theorem profball_symmetric:
  assumes mirror: "\<forall>i < length (coords x_axis).
      coords x_axis ! i = - coords x_axis ! (length (coords x_axis) - 1 - i)"
    and dom: "\<forall>x \<in> set (coords x_axis). x ^ 2 \<le> r_ball ^ 2"
  shows "\<forall>i < length (coords x_axis).
           \<exists>v. profball x_axis r_ball ! i = Some v \<and>
               profball x_axis r_ball ! (length (coords x_axis) - 1 - i) = Some v"
proof (intro allI impI)
  fix i assume i: "i < length (coords x_axis)"
  let ?j = "length (coords x_axis) - 1 - i"
  let ?q = "\<lambda>k. coords (np_power2 x_axis) ! k"
  from i have j: "?j < length (coords x_axis)" by arith
  from mirror i have "coords x_axis ! i = - coords x_axis ! ?j" by blast
  with i j have eq: "?q i = ?q ?j" by (rule square_mirror)
  from dom i have "(coords x_axis ! i) ^ 2 \<le> r_ball ^ 2" by simp
  with i have "\<bar>?q i\<bar> \<le> r_ball ^ 2" by (rule square_bound)
  then have le: "?q i \<le> r_ball ^ 2" by simp
  from i le have "profball x_axis r_ball ! i =
      Some (sgn r_ball * (\<bar>r_ball\<bar> - sqrt (r_ball ^ 2 - ?q i)))"
    by (rule profball_nth_defined)
  moreover from j le have "profball x_axis r_ball ! ?j =
      Some (sgn r_ball * (\<bar>r_ball\<bar> - sqrt (r_ball ^ 2 - ?q i)))"
    unfolding eq by (rule profball_nth_defined)
  ultimately show "\<exists>v. profball x_axis r_ball ! i = Some v \<and>
               profball x_axis r_ball ! ?j = Some v"
    by blast
qed

theorem profball_symmetric_witness:
  "\<exists>v. profball (Float64 [- 1, 0, 1]) 1 ! 0 = Some v \<and>
       profball (Float64 [- 1, 0, 1]) 1 ! 2 = Some v"
proof -
  have c: "coords (Float64 [- 1, 0, 1]) = [- 1, 0, 1]" by (simp add: coords_def)
  have s: "\<forall>i < length (coords (Float64 [- 1, 0, 1])).
      coords (Float64 [- 1, 0, 1]) ! i =
        - coords (Float64 [- 1, 0, 1]) ! (length (coords (Float64 [- 1, 0, 1])) - 1 - i)"
    unfolding c by (simp add: less_Suc_eq numeral_3_eq_3)
  have d: "\<forall>x \<in> set (coords (Float64 [- 1, 0, 1])). x ^ 2 \<le> 1 ^ 2"
    unfolding c by simp
  have e: "length (coords (Float64 [- 1, 0, 1])) - 1 - 0 = 2" unfolding c by simp
  have "0 < length (coords (Float64 [- 1, 0, 1]))" unfolding c by simp
  with profball_symmetric [OF s d]
  have "\<exists>v. profball (Float64 [- 1, 0, 1]) 1 ! 0 = Some v \<and>
            profball (Float64 [- 1, 0, 1]) 1 !
              (length (coords (Float64 [- 1, 0, 1])) - 1 - 0) = Some v"
    by blast
  then show ?thesis by (simp only: e)
qed

text \<open>
  Claim C9. For an \<open>x_axis\<close> (float64 or int64) within \<open>\<plusminus>r_ball\<close>, every value of the profile
  is a number whose absolute value is at most \<open>|r_ball|\<close>.
\<close>

theorem profball_bounded:
  assumes dom: "\<forall>x \<in> set (coords x_axis). x ^ 2 \<le> r_ball ^ 2"
  shows "\<forall>i < length (coords x_axis).
           \<exists>v. profball x_axis r_ball ! i = Some v \<and> \<bar>v\<bar> \<le> \<bar>r_ball\<bar>"
proof (intro allI impI)
  fix i assume i: "i < length (coords x_axis)"
  let ?q = "coords (np_power2 x_axis) ! i"
  let ?s = "sqrt (r_ball ^ 2 - ?q)"
  from dom i have "(coords x_axis ! i) ^ 2 \<le> r_ball ^ 2" by simp
  with i have q: "\<bar>?q\<bar> \<le> r_ball ^ 2" by (rule square_bound)
  then have le: "?q \<le> r_ball ^ 2" by simp
  then have s0: "0 \<le> ?s" by simp
  from q have "r_ball ^ 2 - ?q \<le> (2 * \<bar>r_ball\<bar>) ^ 2"
    by (simp add: power_mult_distrib)
  then have "?s \<le> sqrt ((2 * \<bar>r_ball\<bar>) ^ 2)" by (rule real_sqrt_le_mono)
  moreover have "sqrt ((2 * \<bar>r_ball\<bar>) ^ 2) = 2 * \<bar>r_ball\<bar>"
    by (simp only: real_sqrt_abs abs_mult abs_abs abs_numeral)
  ultimately have s1: "?s \<le> 2 * \<bar>r_ball\<bar>" by (simp only:)
  have "\<bar>sgn r_ball * (\<bar>r_ball\<bar> - ?s)\<bar> = \<bar>sgn r_ball\<bar> * \<bar>\<bar>r_ball\<bar> - ?s\<bar>"
    by (simp only: abs_mult)
  also have "\<dots> \<le> 1 * \<bar>\<bar>r_ball\<bar> - ?s\<bar>"
    by (intro mult_right_mono) (simp_all add: sgn_real_def)
  also have "\<dots> = \<bar>\<bar>r_ball\<bar> - ?s\<bar>" by (simp only: mult_1)
  also have "\<dots> \<le> \<bar>r_ball\<bar>" using s0 s1 by linarith
  finally have "\<bar>sgn r_ball * (\<bar>r_ball\<bar> - ?s)\<bar> \<le> \<bar>r_ball\<bar>" .
  moreover from i le have "profball x_axis r_ball ! i = Some (sgn r_ball * (\<bar>r_ball\<bar> - ?s))"
    by (rule profball_nth_defined)
  ultimately show "\<exists>v. profball x_axis r_ball ! i = Some v \<and> \<bar>v\<bar> \<le> \<bar>r_ball\<bar>"
    by blast
qed

theorem profball_bounded_witness:
  "\<exists>v. profball (Float64 [2]) (- 2) ! 0 = Some v \<and> \<bar>v\<bar> \<le> \<bar>- 2 :: real\<bar>"
proof -
  have c: "coords (Float64 [2]) = [2]" by (simp add: coords_def)
  have d: "\<forall>x \<in> set (coords (Float64 [2])). x ^ 2 \<le> (- 2) ^ 2" unfolding c by simp
  have "0 < length (coords (Float64 [2]))" unfolding c by simp
  with profball_bounded [OF d] show ?thesis by blast
qed

section \<open>Properties of profrevolve\<close>

subsection \<open>The loops fill the grid with the cell values\<close>

lemma math_sqrt_pos: "0 < b \<Longrightarrow> math_sqrt b = Inr (sqrt b)"
  by (simp add: math_sqrt_def)

lemma profrevolve_inner_fold:
  "profrevolve_inner prof_2d y_axis y_diam i_x js a =
     Inr (fold (\<lambda>j a. setitem a i_x j (cell_value y_diam (prof_2d ! i_x) (y_axis ! j))) js a)"
  by (induction js arbitrary: a) (simp_all add: Let_def cell_value_def math_sqrt_pos)

lemma fold_setitem_row:
  "i < length (rows a) \<Longrightarrow>
   fold (\<lambda>j a. setitem a i j (f j)) js a =
     a\<lparr>rows := (rows a)[i := fold (\<lambda>j r. r[j := f j]) js (rows a ! i)]\<rparr>"
  by (induction js arbitrary: a) (simp_all add: setitem_def)

lemma fold_update_upt_prefix:
  "k \<le> length r \<Longrightarrow> fold (\<lambda>j r. r[j := f j]) [0..<k] r = map f [0..<k] @ drop k r"
proof (induction k)
  case 0
  then show ?case by simp
next
  case (Suc k)
  then have k: "k < length r" by simp
  have "fold (\<lambda>j r. r[j := f j]) [0..<Suc k] r = (map f [0..<k] @ drop k r)[k := f k]"
    using Suc by simp
  also have "\<dots> = map f [0..<k] @ (drop k r)[0 := f k]"
    by (simp add: list_update_append)
  also have "(drop k r)[0 := f k] = f k # drop (Suc k) r"
    using k by (simp add: Cons_nth_drop_Suc [symmetric])
  finally show ?case by simp
qed

lemma fold_update_upt:
  "length r = n \<Longrightarrow> fold (\<lambda>j r. r[j := f j]) [0..<n] r = map f [0..<n]"
  using fold_update_upt_prefix [of n r f] by simp

lemma profrevolve_inner_row:
  assumes "i < length (rows a)" and "length (rows a ! i) = length y_axis"
  shows "profrevolve_inner prof_2d y_axis y_diam i [0..<length y_axis] a =
           Inr (a\<lparr>rows := (rows a)[i := map (cell_value y_diam (prof_2d ! i)) y_axis]\<rparr>)"
proof -
  let ?f = "\<lambda>j. cell_value y_diam (prof_2d ! i) (y_axis ! j)"
  have "fold (\<lambda>j r. r[j := ?f j]) [0..<length y_axis] (rows a ! i) = map ?f [0..<length y_axis]"
    using assms(2) by (rule fold_update_upt)
  also have "\<dots> = map (cell_value y_diam (prof_2d ! i)) y_axis"
    by (rule nth_equalityI) simp_all
  finally show ?thesis
    using assms(1) by (simp add: profrevolve_inner_fold fold_setitem_row)
qed

lemma profrevolve_outer_fold:
  assumes "\<forall>i \<in> set todo. i < length (rows a)"
    and "\<forall>r \<in> set (rows a). length r = length y_axis"
  shows "profrevolve_outer prof_2d y_axis y_diam todo a =
           Inr (a\<lparr>rows := fold (\<lambda>i rs. rs[i := map (cell_value y_diam (prof_2d ! i)) y_axis])
                              todo (rows a)\<rparr>)"
  using assms
proof (induction todo arbitrary: a)
  case Nil
  show ?case by simp
next
  case (Cons i todo)
  let ?row = "map (cell_value y_diam (prof_2d ! i)) y_axis"
  let ?a = "a\<lparr>rows := (rows a)[i := ?row]\<rparr>"
  from Cons.prems have i: "i < length (rows a)" by simp
  with Cons.prems have len: "length (rows a ! i) = length y_axis" by simp
  have step: "profrevolve_inner prof_2d y_axis y_diam i [0..<length y_axis] a = Inr ?a"
    using i len by (rule profrevolve_inner_row)
  have 1: "\<forall>k \<in> set todo. k < length (rows ?a)" using Cons.prems by simp
  have 2: "\<forall>r \<in> set (rows ?a). length r = length y_axis"
    using Cons.prems(2) by (auto dest!: set_update_subset_insert [THEN subsetD])
  show ?case
    by (simp add: step Cons.IH [OF 1 2])
qed

lemma profrevolve_raw_eq:
  "profrevolve_raw prof_2d y_axis y_diam =
     Inr \<lparr>shape = (length prof_2d, length y_axis),
          rows = map (\<lambda>p. map (cell_value y_diam p) y_axis) prof_2d\<rparr>"
proof -
  let ?n = "length prof_2d" and ?m = "length y_axis"
  let ?F = "\<lambda>i. map (cell_value y_diam (prof_2d ! i)) y_axis"
  let ?z = "np_zeros (?n, ?m)"
  have 1: "\<forall>i \<in> set [0..<?n]. i < length (rows ?z)" by (simp add: np_zeros_def)
  have 2: "\<forall>r \<in> set (rows ?z). length r = ?m" by (simp add: np_zeros_def)
  have "length (rows ?z) = ?n" by (simp add: np_zeros_def)
  then have "fold (\<lambda>i rs. rs[i := ?F i]) [0..<?n] (rows ?z) = map ?F [0..<?n]"
    by (rule fold_update_upt)
  also have "\<dots> = map (\<lambda>p. map (cell_value y_diam p) y_axis) prof_2d"
    by (rule nth_equalityI) simp_all
  finally have "profrevolve_outer prof_2d y_axis y_diam [0..<?n] ?z =
      Inr (?z\<lparr>rows := map (\<lambda>p. map (cell_value y_diam p) y_axis) prof_2d\<rparr>)"
    by (simp add: profrevolve_outer_fold [OF 1 2])
  then show ?thesis
    by (simp add: profrevolve_raw_def Let_def np_zeros_def)
qed

lemma py_round_half:
  "py_round (real n / 2) = int (n div 2) + (if n mod 4 = 3 then 1 else 0)"
proof (cases "even n")
  case True
  then obtain k where n: "n = 2 * k" by (auto elim: evenE)
  then have "n mod 4 \<noteq> 3" by presburger
  with n show ?thesis by (simp add: py_round_def)
next
  case False
  then obtain k where n: "n = 2 * k + 1" by (auto elim: oddE)
  have v: "real n / 2 = real k + 1 / 2" using n by simp
  have fl: "\<lfloor>real k + 1 / 2\<rfloor> = int k" by linarith
  have m: "n mod 4 = 3 \<longleftrightarrow> odd k" using n by presburger
  have d: "n div 2 = k" using n by simp
  show ?thesis
    unfolding v by (simp add: py_round_def fl m d)
qed

lemma fold_min_Min: "fold min vs (v::real) = Min (set (v # vs))"
  using Min.set_eq_fold [of v vs] by simp

lemma concat_cells_empty:
  "concat (map (\<lambda>p. map (f p) y_axis) prof_2d) = [] \<longleftrightarrow> prof_2d = [] \<or> y_axis = []"
  by (cases prof_2d) auto

lemma set_concat_cells:
  "set (concat (map (\<lambda>p. map (f p) y_axis) prof_2d)) =
     {f p y | p y. p \<in> set prof_2d \<and> y \<in> set y_axis}"
  by auto

lemma profrevolve_raw_grid:
  "profrevolve_raw prof_2d y_axis y_diam = Inr (raw_grid prof_2d y_axis y_diam)"
  by (simp add: profrevolve_raw_eq raw_grid_def)

lemma shape_raw_grid:
  "shape (raw_grid prof_2d y_axis y_diam) = (length prof_2d, length y_axis)"
  by (simp add: raw_grid_def)

lemma raw_grid_nth:
  "i < length prof_2d \<Longrightarrow> j < length y_axis \<Longrightarrow>
   rows (raw_grid prof_2d y_axis y_diam) ! i ! j = cell_value y_diam (prof_2d ! i) (y_axis ! j)"
  by (simp add: raw_grid_def)

lemma np_min_raw_grid:
  assumes "prof_2d \<noteq> []" and "y_axis \<noteq> []"
  shows "\<exists>m. np_min (raw_grid prof_2d y_axis y_diam) = Inr m \<and>
             (\<exists>i < length prof_2d. \<exists>j < length y_axis.
                cell_value y_diam (prof_2d ! i) (y_axis ! j) = m) \<and>
             (\<forall>i < length prof_2d. \<forall>j < length y_axis.
                m \<le> cell_value y_diam (prof_2d ! i) (y_axis ! j))"
proof -
  let ?cs = "concat (rows (raw_grid prof_2d y_axis y_diam))"
  have cs: "?cs = concat (map (\<lambda>p. map (cell_value y_diam p) y_axis) prof_2d)"
    by (simp add: raw_grid_def)
  have ne: "?cs \<noteq> []"
    unfolding cs using assms by (simp only: concat_cells_empty) simp
  then obtain v vs where vvs: "?cs = v # vs" by (cases ?cs) auto
  have set_cs: "set ?cs = {cell_value y_diam p y | p y. p \<in> set prof_2d \<and> y \<in> set y_axis}"
    unfolding cs by (rule set_concat_cells)
  have m: "np_min (raw_grid prof_2d y_axis y_diam) = Inr (Min (set ?cs))"
    unfolding np_min_def vvs by (simp only: list.case fold_min_Min)
  have "Min (set ?cs) \<in> set ?cs"
    using ne by (intro Min_in) simp_all
  then obtain p y where py: "p \<in> set prof_2d" "y \<in> set y_axis"
      "cell_value y_diam p y = Min (set ?cs)"
    unfolding set_cs by auto
  then obtain i j where "i < length prof_2d" "prof_2d ! i = p" "j < length y_axis" "y_axis ! j = y"
    by (auto simp: in_set_conv_nth)
  with py(3) have ex: "\<exists>i < length prof_2d. \<exists>j < length y_axis.
                cell_value y_diam (prof_2d ! i) (y_axis ! j) = Min (set ?cs)"
    by blast
  have le: "\<forall>i < length prof_2d. \<forall>j < length y_axis.
                Min (set ?cs) \<le> cell_value y_diam (prof_2d ! i) (y_axis ! j)"
  proof (intro allI impI)
    fix i j assume "i < length prof_2d" "j < length y_axis"
    then have "prof_2d ! i \<in> set prof_2d" "y_axis ! j \<in> set y_axis"
      by simp_all
    then have "cell_value y_diam (prof_2d ! i) (y_axis ! j) \<in> set ?cs"
      unfolding set_cs by blast
    then show "Min (set ?cs) \<le> cell_value y_diam (prof_2d ! i) (y_axis ! j)"
      by (intro Min_le) simp_all
  qed
  from m ex le show ?thesis by blast
qed

lemma np_min_empty:
  "prof_2d = [] \<or> y_axis = [] \<Longrightarrow> np_min (raw_grid prof_2d y_axis y_diam) = Inl ValueError"
proof -
  assume "prof_2d = [] \<or> y_axis = []"
  then have "concat (map (\<lambda>p. map (cell_value y_diam p) y_axis) prof_2d) = []"
    by (simp only: concat_cells_empty)
  then show ?thesis by (simp only: np_min_def raw_grid_def ndarray.simps list.case)
qed

lemma floor_half: "nat \<lfloor>real n / 2\<rfloor> = n div 2"
proof -
  have "\<lfloor>real n / 2\<rfloor> = int (n div 2)"
    by (simp add: floor_divide_of_nat_eq [where n = 2, simplified])
  then show ?thesis by simp
qed

lemma profrevolve_unfold:
  "profrevolve prof_2d y_axis y_diam =
     (case profrevolve_min_prof (raw_grid prof_2d y_axis y_diam) (length prof_2d) y_diam of
        Inl e \<Rightarrow> Inl e
      | Inr m \<Rightarrow>
          (if y_axis = [] then Inl IndexError
           else Inr (np_neg (np_neg (np_sub (raw_grid prof_2d y_axis y_diam) m)),
                     map (\<lambda>r. r ! (length y_axis div 2))
                         (rows (np_neg (np_sub (raw_grid prof_2d y_axis y_diam) m))))))"
proof -
  have sh: "snd (shape (np_neg (np_sub (raw_grid prof_2d y_axis y_diam) m))) = length y_axis" for m
    by (simp add: np_neg_def np_sub_def raw_grid_def)
  have lt: "length y_axis div 2 < length y_axis \<longleftrightarrow> y_axis \<noteq> []"
    by (cases y_axis) simp_all
  show ?thesis
    by (simp add: profrevolve_def profrevolve_raw_grid Let_def column_def floor_half sh lt
             split: sum.splits)
qed

subsection \<open>The bracket\<close>




subsection \<open>The raw grid\<close>



subsection \<open>Index reads, the result of the whole function\<close>

lemma np_index_Inr_iff: "(\<exists>j. np_index n i = Inr j) \<longleftrightarrow> - int n \<le> i \<and> i < int n"
  by (auto simp: np_index_def)

lemma getitem_Inr_iff:
  "(\<exists>v. getitem a (i, j) = Inr v) \<longleftrightarrow>
     (- int (fst (shape a)) \<le> i \<and> i < int (fst (shape a))) \<and>
     (- int (snd (shape a)) \<le> j \<and> j < int (snd (shape a)))"
  by (auto simp: getitem_def np_index_def split: sum.splits)

lemma getitem_Inl:
  "\<not> ((- int (fst (shape a)) \<le> i \<and> i < int (fst (shape a))) \<and>
       (- int (snd (shape a)) \<le> j \<and> j < int (snd (shape a)))) \<Longrightarrow>
   getitem a (i, j) = Inl IndexError"
  by (auto simp: getitem_def np_index_def split: sum.splits)

lemma round_index_bounds:
  assumes "n \<noteq> 0"
  shows "- 1 \<le> py_round (real n / 2) - 1" and "py_round (real n / 2) - 1 < int n"
proof -
  show "- 1 \<le> py_round (real n / 2) - 1" by (simp add: py_round_half)
  have "n mod 4 = 3 \<Longrightarrow> 3 \<le> n" by presburger
  with assms show "py_round (real n / 2) - 1 < int n"
    by (auto simp: py_round_half)
qed

lemma min_prof_Inr_iff:
  "(\<exists>m. profrevolve_min_prof (raw_grid prof_2d y_axis y_diam) (length prof_2d) y_diam = Inr m) \<longleftrightarrow>
     prof_2d \<noteq> [] \<and> y_axis \<noteq> [] \<and>
     (0 < y_diam \<or> py_round (real (length prof_2d) / 2) - 1 < int (length y_axis))"
proof (cases "0 < y_diam")
  case True
  show ?thesis
  proof (cases "prof_2d = [] \<or> y_axis = []")
    case True
    with \<open>0 < y_diam\<close> show ?thesis
      by (auto simp: profrevolve_min_prof_def np_min_empty)
  next
    case False
    then have "\<exists>m. np_min (raw_grid prof_2d y_axis y_diam) = Inr m"
      using np_min_raw_grid [of prof_2d y_axis y_diam] by blast
    with False \<open>0 < y_diam\<close> show ?thesis
      by (simp add: profrevolve_min_prof_def)
  qed
next
  case False
  let ?k = "py_round (real (length prof_2d) / 2) - 1"
  have "(\<exists>v. getitem (raw_grid prof_2d y_axis y_diam) (?k, ?k) = Inr v) \<longleftrightarrow>
      prof_2d \<noteq> [] \<and> y_axis \<noteq> [] \<and> ?k < int (length y_axis)"
  proof (cases "prof_2d = []")
    case True
    then show ?thesis
      by (simp add: getitem_Inr_iff shape_raw_grid py_round_def)
  next
    case False
    then have n: "length prof_2d \<noteq> 0" by simp
    define k where "k = py_round (real (length prof_2d) / 2) - 1"
    from round_index_bounds [OF n] have k: "- 1 \<le> k" "k < int (length prof_2d)"
      by (simp_all add: k_def)
    have m: "y_axis \<noteq> [] \<longleftrightarrow> 1 \<le> int (length y_axis)"
      by (cases y_axis) simp_all
    from False have n1: "1 \<le> int (length prof_2d)"
      by (cases prof_2d) simp_all
    have "(\<exists>v. getitem (raw_grid prof_2d y_axis y_diam) (k, k) = Inr v) \<longleftrightarrow>
        y_axis \<noteq> [] \<and> k < int (length y_axis)"
      unfolding getitem_Inr_iff shape_raw_grid fst_conv snd_conv m using k n1 by linarith
    with False show ?thesis by (simp add: k_def)
  qed
  with False show ?thesis by (simp add: profrevolve_min_prof_def)
qed

lemma profrevolve_Inr_D:
  assumes "profrevolve prof_2d y_axis y_diam = Inr (g, s)"
  obtains m where
    "profrevolve_min_prof (raw_grid prof_2d y_axis y_diam) (length prof_2d) y_diam = Inr m"
    "y_axis \<noteq> []"
    "g = np_neg (np_neg (np_sub (raw_grid prof_2d y_axis y_diam) m))"
    "s = map (\<lambda>r. r ! (length y_axis div 2))
             (rows (np_neg (np_sub (raw_grid prof_2d y_axis y_diam) m)))"
  using assms by (auto simp: profrevolve_unfold split: sum.splits if_splits)

lemma rows_final:
  "rows (np_neg (np_sub (raw_grid prof_2d y_axis y_diam) m)) =
     map (\<lambda>p. map (\<lambda>y. - (cell_value y_diam p y - m)) y_axis) prof_2d"
  by (simp add: np_neg_def np_sub_def raw_grid_def comp_def)

lemma rows_primary:
  "rows (np_neg (np_neg (np_sub (raw_grid prof_2d y_axis y_diam) m))) =
     map (\<lambda>p. map (\<lambda>y. cell_value y_diam p y - m) y_axis) prof_2d"
  by (simp add: np_neg_def np_sub_def raw_grid_def comp_def)

lemma shape_primary:
  "shape (np_neg (np_neg (np_sub (raw_grid prof_2d y_axis y_diam) m))) =
     (length prof_2d, length y_axis)"
  by (simp add: np_neg_def np_sub_def raw_grid_def)

lemma profrevolve_example:
  "profrevolve [0, 1] [0, 2] 2 =
     Inr (\<lparr>shape = (2, 2), rows = [[0, 1], [1, 1]]\<rparr>, [- 1, - 1])"
  by (simp add: profrevolve_unfold profrevolve_min_prof_def np_min_def raw_grid_def
        cell_value_def bracket_def np_neg_def np_sub_def)

subsection \<open>The reference value\<close>

text \<open>
  Claim C3, as stated, fails: the source indexes with \<open>round(len_x / 2) - 1\<close>, and Python
  rounds a tie to the even integer, so for \<open>len_x = 3\<close> the index is \<open>round(1.5) - 1 = 1\<close>,
  not \<open>\<lfloor>3 / 2\<rfloor> - 1 = 0\<close>. For the profile \<open>[2, 1, 2]\<close>, \<open>y_axis = [0, 0, 0]\<close> and
  \<open>y_diam = -4\<close> the reference is the cell \<open>(1, 1)\<close>, which is \<open>3\<close>; the cell \<open>(0, 0)\<close> is \<open>2\<close>.
\<close>

theorem reference_index_differs:
  "profrevolve_raw [2, 1, 2] [0, 0, 0] (- 4) =
     Inr \<lparr>shape = (3, 3), rows = [[2, 2, 2], [3, 3, 3], [2, 2, 2]]\<rparr> \<and>
   profrevolve_min_prof \<lparr>shape = (3, 3), rows = [[2, 2, 2], [3, 3, 3], [2, 2, 2]]\<rparr> 3 (- 4) =
     Inr 3 \<and>
   getitem \<lparr>shape = (3, 3), rows = [[2, 2, 2], [3, 3, 3], [2, 2, 2]]\<rparr>
     (\<lfloor>3 / 2 :: real\<rfloor> - 1, \<lfloor>3 / 2 :: real\<rfloor> - 1) = Inr 2"
proof (intro conjI)
  show "profrevolve_raw [2, 1, 2] [0, 0, 0] (- 4) =
     Inr \<lparr>shape = (3, 3), rows = [[2, 2, 2], [3, 3, 3], [2, 2, 2]]\<rparr>"
    by (simp add: profrevolve_raw_eq cell_value_def bracket_def)
  show "profrevolve_min_prof \<lparr>shape = (3, 3), rows = [[2, 2, 2], [3, 3, 3], [2, 2, 2]]\<rparr> 3 (- 4) =
     Inr 3"
    by (simp add: profrevolve_min_prof_def getitem_def np_index_def py_round_def)
  show "getitem \<lparr>shape = (3, 3), rows = [[2, 2, 2], [3, 3, 3], [2, 2, 2]]\<rparr>
     (\<lfloor>3 / 2 :: real\<rfloor> - 1, \<lfloor>3 / 2 :: real\<rfloor> - 1) = Inr 2"
    by (simp add: getitem_def np_index_def)
qed

text \<open>
  Claim C3, amended. For \<open>y_diam > 0\<close> and a non-empty grid the reference is the global
  minimum of the raw grid: a cell of the grid that no cell is below. For \<open>y_diam \<le> 0\<close> it is
  the numpy read of the raw grid at \<open>(k, k)\<close> with \<open>k = round(len_x / 2) - 1\<close>, ties to even:
  \<open>k = \<lfloor>len_x / 2\<rfloor> - 1\<close> unless \<open>len_x mod 4 = 3\<close>, where \<open>k = \<lfloor>len_x / 2\<rfloor>\<close>; \<open>len_x\<close> is
  used for both dimensions.
\<close>

theorem profrevolve_reference:
  "\<exists>raw. profrevolve_raw prof_2d y_axis y_diam = Inr raw \<and>
     (0 < y_diam \<and> prof_2d \<noteq> [] \<and> y_axis \<noteq> [] \<longrightarrow>
        (\<exists>m. profrevolve_min_prof raw (length prof_2d) y_diam = Inr m \<and>
             (\<exists>i < length prof_2d. \<exists>j < length y_axis. rows raw ! i ! j = m) \<and>
             (\<forall>i < length prof_2d. \<forall>j < length y_axis. m \<le> rows raw ! i ! j))) \<and>
     (y_diam \<le> 0 \<and> length prof_2d mod 4 \<noteq> 3 \<longrightarrow>
        profrevolve_min_prof raw (length prof_2d) y_diam =
          getitem raw (int (length prof_2d div 2) - 1, int (length prof_2d div 2) - 1)) \<and>
     (y_diam \<le> 0 \<and> length prof_2d mod 4 = 3 \<longrightarrow>
        profrevolve_min_prof raw (length prof_2d) y_diam =
          getitem raw (int (length prof_2d div 2), int (length prof_2d div 2)))"
proof -
  let ?raw = "raw_grid prof_2d y_axis y_diam"
  have 1: "profrevolve_raw prof_2d y_axis y_diam = Inr ?raw"
    by (rule profrevolve_raw_grid)
  have 2: "0 < y_diam \<and> prof_2d \<noteq> [] \<and> y_axis \<noteq> [] \<longrightarrow>
        (\<exists>m. profrevolve_min_prof ?raw (length prof_2d) y_diam = Inr m \<and>
             (\<exists>i < length prof_2d. \<exists>j < length y_axis. rows ?raw ! i ! j = m) \<and>
             (\<forall>i < length prof_2d. \<forall>j < length y_axis. m \<le> rows ?raw ! i ! j))"
  proof (rule impI)
    assume a: "0 < y_diam \<and> prof_2d \<noteq> [] \<and> y_axis \<noteq> []"
    then obtain m where m: "np_min ?raw = Inr m"
      and ex: "\<exists>i < length prof_2d. \<exists>j < length y_axis.
                  cell_value y_diam (prof_2d ! i) (y_axis ! j) = m"
      and le: "\<forall>i < length prof_2d. \<forall>j < length y_axis.
                  m \<le> cell_value y_diam (prof_2d ! i) (y_axis ! j)"
      using np_min_raw_grid [of prof_2d y_axis y_diam] by blast
    from a m have "profrevolve_min_prof ?raw (length prof_2d) y_diam = Inr m"
      by (simp add: profrevolve_min_prof_def)
    moreover have "\<exists>i < length prof_2d. \<exists>j < length y_axis. rows ?raw ! i ! j = m"
    proof -
      from ex obtain i j where "i < length prof_2d" "j < length y_axis"
        "cell_value y_diam (prof_2d ! i) (y_axis ! j) = m" by blast
      then have "i < length prof_2d \<and> j < length y_axis \<and> rows ?raw ! i ! j = m"
        by (simp add: raw_grid_nth)
      then show ?thesis by blast
    qed
    moreover from le have "\<forall>i < length prof_2d. \<forall>j < length y_axis. m \<le> rows ?raw ! i ! j"
      by (simp add: raw_grid_nth)
    ultimately show "\<exists>m. profrevolve_min_prof ?raw (length prof_2d) y_diam = Inr m \<and>
             (\<exists>i < length prof_2d. \<exists>j < length y_axis. rows ?raw ! i ! j = m) \<and>
             (\<forall>i < length prof_2d. \<forall>j < length y_axis. m \<le> rows ?raw ! i ! j)"
      by blast
  qed
  have 3: "y_diam \<le> 0 \<and> length prof_2d mod 4 \<noteq> 3 \<longrightarrow>
        profrevolve_min_prof ?raw (length prof_2d) y_diam =
          getitem ?raw (int (length prof_2d div 2) - 1, int (length prof_2d div 2) - 1)"
    by (simp add: profrevolve_min_prof_def py_round_half)
  have 4: "y_diam \<le> 0 \<and> length prof_2d mod 4 = 3 \<longrightarrow>
        profrevolve_min_prof ?raw (length prof_2d) y_diam =
          getitem ?raw (int (length prof_2d div 2), int (length prof_2d div 2))"
    by (simp add: profrevolve_min_prof_def py_round_half)
  from 1 2 3 4 show ?thesis by blast
qed

theorem profrevolve_reference_witness:
  "(\<exists>raw m. profrevolve_raw [0, 1] [0, 2] 2 = Inr raw \<and>
      profrevolve_min_prof raw (length [0, 1 :: real]) 2 = Inr m \<and>
      (\<exists>i < length [0, 1 :: real]. \<exists>j < length [0, 2 :: real]. rows raw ! i ! j = m)) \<and>
   (\<exists>raw. profrevolve_raw [0, 0] [0, 0] (- 1) = Inr raw \<and>
      profrevolve_min_prof raw (length [0, 0 :: real]) (- 1) = getitem raw (0, 0)) \<and>
   (\<exists>raw. profrevolve_raw [2, 1, 2] [0, 0, 0] (- 4) = Inr raw \<and>
      profrevolve_min_prof raw (length [2, 1, 2 :: real]) (- 4) = getitem raw (1, 1))"
proof (intro conjI)
  have "(0 :: real) < 2 \<and> [0, 1 :: real] \<noteq> [] \<and> [0, 2 :: real] \<noteq> []" by simp
  with profrevolve_reference [of "[0, 1]" "[0, 2]" 2]
  show "\<exists>raw m. profrevolve_raw [0, 1] [0, 2] 2 = Inr raw \<and>
      profrevolve_min_prof raw (length [0, 1 :: real]) 2 = Inr m \<and>
      (\<exists>i < length [0, 1 :: real]. \<exists>j < length [0, 2 :: real]. rows raw ! i ! j = m)"
    by blast
next
  show "\<exists>raw. profrevolve_raw [0, 0] [0, 0] (- 1) = Inr raw \<and>
      profrevolve_min_prof raw (length [0, 0 :: real]) (- 1) = getitem raw (0, 0)"
    using profrevolve_reference [of "[0, 0]" "[0, 0]" "- 1"] by simp
next
  show "\<exists>raw. profrevolve_raw [2, 1, 2] [0, 0, 0] (- 4) = Inr raw \<and>
      profrevolve_min_prof raw (length [2, 1, 2 :: real]) (- 4) = getitem raw (1, 1)"
    using profrevolve_reference [of "[2, 1, 2]" "[0, 0, 0]" "- 4"] by simp
qed

subsection \<open>The two outputs\<close>

text \<open>
  Claim C4. When profrevolve returns \<open>(g, s)\<close>, the grid \<open>g\<close> has shape
  \<open>(len(prof_2d), len(y_axis))\<close>, with that many rows and columns, and its cells are the raw
  cells minus the reference (the negation of \<open>final = -(raw - reference)\<close>); \<open>s\<close> has length
  \<open>len(prof_2d)\<close> and is the column \<open>\<lfloor>len(y_axis) / 2\<rfloor>\<close> of \<open>final\<close> itself, so its entries are
  \<open>-(raw - reference)\<close>: the two outputs have opposite signs.
\<close>

theorem profrevolve_outputs:
  assumes "profrevolve prof_2d y_axis y_diam = Inr (g, s)"
  shows "\<exists>raw m. profrevolve_raw prof_2d y_axis y_diam = Inr raw \<and>
           profrevolve_min_prof raw (length prof_2d) y_diam = Inr m \<and>
           shape g = (length prof_2d, length y_axis) \<and>
           length (rows g) = length prof_2d \<and>
           (\<forall>r \<in> set (rows g). length r = length y_axis) \<and>
           (\<forall>i < length prof_2d. \<forall>j < length y_axis.
              rows g ! i ! j = rows raw ! i ! j - m) \<and>
           length s = length prof_2d \<and>
           (\<forall>i < length prof_2d.
              s ! i = - (rows raw ! i ! (length y_axis div 2) - m))"
proof -
  let ?raw = "raw_grid prof_2d y_axis y_diam"
  from assms obtain m where
    m: "profrevolve_min_prof ?raw (length prof_2d) y_diam = Inr m"
    and y: "y_axis \<noteq> []"
    and g: "g = np_neg (np_neg (np_sub ?raw m))"
    and s: "s = map (\<lambda>r. r ! (length y_axis div 2)) (rows (np_neg (np_sub ?raw m)))"
    by (rule profrevolve_Inr_D)
  from y have mid: "length y_axis div 2 < length y_axis"
    by (cases y_axis) simp_all
  have 1: "profrevolve_raw prof_2d y_axis y_diam = Inr ?raw"
    by (rule profrevolve_raw_grid)
  have 2: "shape g = (length prof_2d, length y_axis)"
    unfolding g by (rule shape_primary)
  have 3: "length (rows g) = length prof_2d"
    unfolding g rows_primary by simp
  have 4: "\<forall>r \<in> set (rows g). length r = length y_axis"
    unfolding g rows_primary by auto
  have 5: "\<forall>i < length prof_2d. \<forall>j < length y_axis. rows g ! i ! j = rows ?raw ! i ! j - m"
    unfolding g rows_primary by (simp add: raw_grid_nth)
  have 6: "length s = length prof_2d"
    unfolding s rows_final by simp
  have 7: "\<forall>i < length prof_2d. s ! i = - (rows ?raw ! i ! (length y_axis div 2) - m)"
    unfolding s rows_final using mid by (simp add: raw_grid_nth)
  from 1 m 2 3 4 5 6 7 show ?thesis by blast
qed

theorem profrevolve_outputs_witness:
  "profrevolve [0, 1] [0, 2] 2 =
     Inr (\<lparr>shape = (2, 2), rows = [[0, 1], [1, 1]]\<rparr>, [- 1, - 1]) \<and>
   (\<exists>raw m. profrevolve_raw [0, 1] [0, 2] 2 = Inr raw \<and>
      profrevolve_min_prof raw (length [0, 1 :: real]) 2 = Inr m \<and>
      (\<forall>i < length [0, 1 :: real].
         [- 1, - 1] ! i = - (rows raw ! i ! (length [0, 2 :: real] div 2) - m)))"
proof -
  note e = profrevolve_example
  from profrevolve_outputs [OF e] e show ?thesis by blast
qed

subsection \<open>Exceptions\<close>

text \<open>
  Claim C5 is broken by the code: finite real input can raise. With four profile points,
  one \<open>y\<close> point and \<open>y_diam = -1\<close> every bracket is \<open>0.25 - 1 \<le> 0\<close>, the grid of shape
  \<open>(4, 1)\<close> is filled with \<open>0.5\<close>, and line 61 then reads \<open>prof_3d[1, 1]\<close>: it indexes the
  \<open>y\<close> direction of size \<open>len_y = 1\<close> with \<open>round(len_x / 2) - 1 = 1\<close>, where line 63 indexes the
  same direction with \<open>len_y\<close>. The read raises IndexError.
\<close>

theorem profrevolve_raises_IndexError:
  "profrevolve [0, 0, 0, 0] [1] (- 1) = Inl IndexError"
  by (simp add: profrevolve_unfold profrevolve_min_prof_def getitem_def np_index_def
        raw_grid_def py_round_def)

text \<open>
  Within the real-number model the sizes are the only source of an exception:
  \<open>math.sqrt\<close> is applied to positive brackets only, and profrevolve returns exactly when
  \<open>prof_2d\<close> and \<open>y_axis\<close> are non-empty and either \<open>y_diam > 0\<close> or the index
  \<open>round(len_x / 2) - 1\<close> is below \<open>len(y_axis)\<close>.
\<close>

lemma profrevolve_returns_iff:
  "(\<exists>res. profrevolve prof_2d y_axis y_diam = Inr res) \<longleftrightarrow>
     prof_2d \<noteq> [] \<and> y_axis \<noteq> [] \<and>
     (0 < y_diam \<or> py_round (real (length prof_2d) / 2) - 1 < int (length y_axis))"
proof -
  have "(\<exists>res. profrevolve prof_2d y_axis y_diam = Inr res) \<longleftrightarrow>
      (\<exists>m. profrevolve_min_prof (raw_grid prof_2d y_axis y_diam) (length prof_2d) y_diam = Inr m)
      \<and> y_axis \<noteq> []"
    by (auto simp: profrevolve_unfold split: sum.splits)
  then show ?thesis by (auto simp: min_prof_Inr_iff)
qed

text \<open>
  Claim C6, as stated, fails for profrevolve: with an empty \<open>prof_2d\<close> and \<open>y_diam = 1\<close> the
  call \<open>prof_3d.min()\<close> on the grid of shape \<open>(0, 1)\<close> raises ValueError.
\<close>

theorem profrevolve_empty_raises:
  "profrevolve [] [0] 1 = Inl ValueError"
  by (simp add: profrevolve_unfold profrevolve_min_prof_def np_min_def raw_grid_def)

text \<open>
  Claim C6, amended. profball of an empty \<open>x_axis\<close> (of either dtype) is the empty profile,
  without error. profrevolve with an empty \<open>prof_2d\<close> or an empty \<open>y_axis\<close> raises: ValueError
  (the minimum of an empty array) when \<open>y_diam > 0\<close>, IndexError (the reference read)
  otherwise.
\<close>

theorem empty_axes:
  "profball (Float64 []) r_ball = [] \<and> profball (Int64 []) r_ball = [] \<and>
   (prof_2d = [] \<or> y_axis = [] \<longrightarrow>
      profrevolve prof_2d y_axis y_diam = Inl (if 0 < y_diam then ValueError else IndexError))"
proof (intro conjI impI)
  show "profball (Float64 []) r_ball = []"
    by (simp add: profball_def coords_def np_power2_def)
  show "profball (Int64 []) r_ball = []"
    by (simp add: profball_def coords_def np_power2_def)
next
  assume e: "prof_2d = [] \<or> y_axis = []"
  let ?k = "py_round (real (length prof_2d) / 2) - 1"
  have "getitem (raw_grid prof_2d y_axis y_diam) (?k, ?k) = Inl IndexError"
    using e by (intro getitem_Inl) (auto simp: shape_raw_grid)
  then have "profrevolve_min_prof (raw_grid prof_2d y_axis y_diam) (length prof_2d) y_diam =
      Inl (if 0 < y_diam then ValueError else IndexError)"
    using e by (simp add: profrevolve_min_prof_def np_min_empty)
  then show "profrevolve prof_2d y_axis y_diam =
      Inl (if 0 < y_diam then ValueError else IndexError)"
    by (simp add: profrevolve_unfold)
qed

theorem empty_axes_witness:
  "profball (Float64 []) 1 = [] \<and> profball (Int64 []) 1 = [] \<and>
   profrevolve [1] [] 0 = Inl IndexError"
  using empty_axes [of 1 "[1]" "[]" 0] by simp

subsection \<open>Convex bodies\<close>

text \<open>
  Claim C10. For non-empty \<open>prof_2d\<close> and \<open>y_axis\<close> and \<open>y_diam > 0\<close>, profrevolve returns, and the
  grid it returns is the raw grid minus its global minimum: the raw grid \<open>raw\<close> has a
  minimum \<open>m\<close> (a cell of \<open>raw\<close> that no cell is below), the returned grid is \<open>raw - m\<close> cell by
  cell, with the shape of \<open>raw\<close>; so every returned cell is \<open>\<ge> 0\<close> and at least one is \<open>0\<close>.
\<close>

theorem profrevolve_convex_nonneg:
  assumes "prof_2d \<noteq> []" and "y_axis \<noteq> []" and "0 < y_diam"
  shows "\<exists>g s raw m.
           profrevolve prof_2d y_axis y_diam = Inr (g, s) \<and>
           profrevolve_raw prof_2d y_axis y_diam = Inr raw \<and>
           np_min raw = Inr m \<and>
           (\<exists>i < length prof_2d. \<exists>j < length y_axis. rows raw ! i ! j = m) \<and>
           (\<forall>i < length prof_2d. \<forall>j < length y_axis. m \<le> rows raw ! i ! j) \<and>
           g = np_sub raw m \<and>
           shape g = (length prof_2d, length y_axis) \<and>
           (\<forall>i < length prof_2d. \<forall>j < length y_axis. rows g ! i ! j = rows raw ! i ! j - m) \<and>
           (\<forall>i < length prof_2d. \<forall>j < length y_axis. 0 \<le> rows g ! i ! j) \<and>
           (\<exists>i < length prof_2d. \<exists>j < length y_axis. rows g ! i ! j = 0)"
proof -
  let ?raw = "raw_grid prof_2d y_axis y_diam"
  from assms(1,2) obtain m where m: "np_min ?raw = Inr m"
    and ex: "\<exists>i < length prof_2d. \<exists>j < length y_axis.
                cell_value y_diam (prof_2d ! i) (y_axis ! j) = m"
    and le: "\<forall>i < length prof_2d. \<forall>j < length y_axis.
                m \<le> cell_value y_diam (prof_2d ! i) (y_axis ! j)"
    using np_min_raw_grid [of prof_2d y_axis y_diam] by blast
  let ?g = "np_neg (np_neg (np_sub ?raw m))"
  let ?s = "map (\<lambda>r. r ! (length y_axis div 2)) (rows (np_neg (np_sub ?raw m)))"
  from assms(3) m have "profrevolve_min_prof ?raw (length prof_2d) y_diam = Inr m"
    by (simp add: profrevolve_min_prof_def)
  with assms(2) have 1: "profrevolve prof_2d y_axis y_diam = Inr (?g, ?s)"
    by (simp add: profrevolve_unfold)
  have 2: "profrevolve_raw prof_2d y_axis y_diam = Inr ?raw"
    by (rule profrevolve_raw_grid)
  from ex obtain i j where ij: "i < length prof_2d" "j < length y_axis"
    "cell_value y_diam (prof_2d ! i) (y_axis ! j) = m" by blast
  then have "i < length prof_2d \<and> j < length y_axis \<and> rows ?raw ! i ! j = m"
    by (simp add: raw_grid_nth)
  then have 3: "\<exists>i < length prof_2d. \<exists>j < length y_axis. rows ?raw ! i ! j = m"
    by blast
  from le have 4: "\<forall>i < length prof_2d. \<forall>j < length y_axis. m \<le> rows ?raw ! i ! j"
    by (simp add: raw_grid_nth)
  have 5: "?g = np_sub ?raw m"
    by (simp add: np_neg_def np_sub_def comp_def)
  have 6: "shape ?g = (length prof_2d, length y_axis)"
    by (rule shape_primary)
  have 7: "\<forall>i < length prof_2d. \<forall>j < length y_axis. rows ?g ! i ! j = rows ?raw ! i ! j - m"
    unfolding rows_primary by (simp add: raw_grid_nth)
  from le have 8: "\<forall>i < length prof_2d. \<forall>j < length y_axis. 0 \<le> rows ?g ! i ! j"
    unfolding rows_primary by simp
  from ij have "i < length prof_2d \<and> j < length y_axis \<and> rows ?g ! i ! j = 0"
    unfolding rows_primary by simp
  then have 9: "\<exists>i < length prof_2d. \<exists>j < length y_axis. rows ?g ! i ! j = 0"
    by blast
  from 1 2 m 3 4 5 6 7 8 9 show ?thesis by blast
qed

theorem profrevolve_convex_nonneg_witness:
  "[0, 1 :: real] \<noteq> [] \<and> [0, 2 :: real] \<noteq> [] \<and> (0 :: real) < 2 \<and>
   (\<exists>g s raw m.
      profrevolve [0, 1] [0, 2] 2 = Inr (g, s) \<and>
      profrevolve_raw [0, 1] [0, 2] 2 = Inr raw \<and>
      np_min raw = Inr m \<and>
      g = np_sub raw m \<and>
      (\<forall>i < length [0, 1 :: real]. \<forall>j < length [0, 2 :: real]. 0 \<le> rows g ! i ! j) \<and>
      (\<exists>i < length [0, 1 :: real]. \<exists>j < length [0, 2 :: real]. rows g ! i ! j = 0))"
proof -
  have a: "[0, 1 :: real] \<noteq> []" and b: "[0, 2 :: real] \<noteq> []" and c: "(0 :: real) < 2"
    by simp_all
  from profrevolve_convex_nonneg [OF a b c] a b c show ?thesis by blast
qed


end
